theory Spec2Isabelle
  imports Main
begin

section \<open>Values, errors and the outside world\<close>

text \<open>
  The pipeline of \<^verbatim>\<open>function_app.py\<close> moves Python values between a trigger, an
  orchestrator and three activities. Values that cross an activity boundary or come back
  from the completion endpoint are JSON values; numbers are kept as integers, since every
  operation below (subscripting, uploading) treats any number alike.
\<close>

datatype pyval =
    PNone
  | PBool bool
  | PInt int
  | PStr string
  | PList "pyval list"
  | PDict "(string \<times> pyval) list"

text \<open>
  Exceptions are values. \<open>KeyError\<close> carries the key that was looked up; \<open>HTTPError\<close> the
  status that \<^verbatim>\<open>raise_for_status\<close> rejected; \<open>ServiceError\<close> is any failure an external
  service reports (network fault, throttling inside an SDK call, rejected credentials).
\<close>

datatype error =
    KeyError pyval
  | IndexError
  | TypeError
  | ValueError
  | JSONDecodeError
  | HTTPError int
  | ResourceNotFoundError
  | ResourceExistsError
  | ServiceError string

text \<open>\<open>KeyError\<close> and \<open>IndexError\<close> are the two subclasses of Python's \<open>LookupError\<close>.\<close>

fun is_lookup_error :: "error \<Rightarrow> bool" where
  "is_lookup_error (KeyError k) = True"
| "is_lookup_error IndexError = True"
| "is_lookup_error e = False"

record datetime =
  year :: nat
  month :: nat
  day :: nat
  hour :: nat
  minute :: nat
  second :: nat

text \<open>The layout-analysis result: pages, each with its text lines.\<close>

record line =
  content :: string

record page =
  lines :: "line list"

record analyze_request =
  analysis_endpoint :: string
  analysis_key :: string
  model_id :: string
  document :: string
  locale_hint :: string

record http_request =
  http_method :: string
  request_url :: string
  headers :: "(string \<times> string) list"
  json_body :: pyval

text \<open>\<open>body_json\<close> is \<open>None\<close> when the response body is not a JSON document.\<close>

record http_response =
  status_code :: int
  body_json :: "pyval option"

text \<open>The storage event handed to the trigger (\<^verbatim>\<open>func.InputStream\<close>).\<close>

record input_stream =
  name :: string
  blob_length :: nat

text \<open>
  Everything outside the Python process is one record. Services may answer differently
  at different instants, so they take the current instant \<open>now_ms\<close> (milliseconds).
  \<^item> \<open>environ\<close>: \<^verbatim>\<open>os.environ\<close>;
  \<^item> \<open>from_connection_string\<close>: the storage SDK's constructor, which may reject its argument;
  \<^item> \<open>containers\<close>: the storage account, container name to blob name to content;
  \<^item> \<open>storage_fault\<close>: a transient failure of the storage service at an instant;
  \<^item> \<open>wall_clock\<close>: what \<^verbatim>\<open>datetime.utcnow()\<close> reads at an instant;
  \<^item> \<open>layout_service\<close>: \<^verbatim>\<open>begin_analyze_document(...).result().pages\<close>;
  \<^item> \<open>completion_service\<close>: \<^verbatim>\<open>requests.post\<close>, returning the final response or raising;
  \<^item> \<open>http_log\<close>: the HTTP requests issued so far, oldest first;
  \<^item> \<open>started\<close>: the orchestration instances started through the durable client;
  \<^item> \<open>str_other\<close>: Python's \<^verbatim>\<open>str()\<close> on a value that is not a string.
\<close>

record world =
  environ :: "string \<rightharpoonup> string"
  from_connection_string :: "string \<Rightarrow> error option"
  containers :: "string \<rightharpoonup> (string \<rightharpoonup> string)"
  storage_fault :: "nat \<Rightarrow> error option"
  now_ms :: nat
  wall_clock :: "nat \<Rightarrow> datetime"
  layout_service :: "nat \<Rightarrow> analyze_request \<Rightarrow> error + page list"
  completion_service :: "nat \<Rightarrow> http_request \<Rightarrow> error + http_response"
  http_log :: "http_request list"
  started :: "(string \<times> pyval) list"
  str_other :: "pyval \<Rightarrow> string"

type_synonym 'a result = "error + 'a"

definition and_then :: "'a result \<Rightarrow> ('a \<Rightarrow> 'b result) \<Rightarrow> 'b result" where
  "and_then r f = (case r of Inl e \<Rightarrow> Inl e | Inr v \<Rightarrow> f v)"

section \<open>Python primitives used by the code\<close>

text \<open>\<^verbatim>\<open>os.environ[k]\<close>: the value, or \<open>KeyError\<close>.\<close>

definition getenv :: "world \<Rightarrow> string \<Rightarrow> string result" where
  "getenv w k = (case environ w k of None \<Rightarrow> Inl (KeyError (PStr k)) | Some v \<Rightarrow> Inr v)"

text \<open>\<^verbatim>\<open>s.split(c)\<close> with an explicit one-character separator: never an empty list.\<close>

fun split :: "string \<Rightarrow> char \<Rightarrow> string list" where
  "split [] c = [[]]"
| "split (x # xs) c =
     (if x = c then [] # split xs c
      else (case split xs c of [] \<Rightarrow> [[x]] | y # ys \<Rightarrow> (x # y) # ys))"

text \<open>\<^verbatim>\<open>xs[-1]\<close>: the last element, \<open>IndexError\<close> on an empty list.\<close>

definition last_item :: "'a list \<Rightarrow> 'a result" where
  "last_item xs = (case xs of [] \<Rightarrow> Inl IndexError | _ \<Rightarrow> Inr (last xs))"

text \<open>\<^verbatim>\<open>sep.join(xs)\<close>.\<close>

fun join :: "string \<Rightarrow> string list \<Rightarrow> string" where
  "join sep [] = []"
| "join sep [x] = x"
| "join sep (x # y # ys) = x @ sep @ join sep (y # ys)"

definition newline :: string where
  "newline = [CHR 0x0A]"

text \<open>\<^verbatim>\<open>s.rstrip("/")\<close>: every trailing slash is removed.\<close>

definition rstrip :: "string \<Rightarrow> char \<Rightarrow> string" where
  "rstrip s c = rev (dropWhile (\<lambda>x. x = c) (rev s))"

text \<open>
  Subscripting a value with a string key, \<^verbatim>\<open>v["k"]\<close>: a dict answers or raises
  \<open>KeyError\<close>; a list or a string accepts integer indices only; the rest is not
  subscriptable.
\<close>

fun getitem :: "pyval \<Rightarrow> string \<Rightarrow> pyval result" where
  "getitem (PDict d) k = (case map_of d k of None \<Rightarrow> Inl (KeyError (PStr k)) | Some v \<Rightarrow> Inr v)"
| "getitem v k = Inl TypeError"

text \<open>
  Subscripting with a non-negative integer, \<^verbatim>\<open>v[i]\<close>: lists and strings are indexed
  (a string yields the one-character string); a parsed JSON object has string keys only,
  so an integer key is missing.
\<close>

fun getindex :: "pyval \<Rightarrow> nat \<Rightarrow> pyval result" where
  "getindex (PList xs) i = (if i < length xs then Inr (xs ! i) else Inl IndexError)"
| "getindex (PStr s) i = (if i < length s then Inr (PStr [s ! i]) else Inl IndexError)"
| "getindex (PDict d) i = Inl (KeyError (PInt (int i)))"
| "getindex v i = Inl TypeError"

text \<open>Formatting a value inside an f-string: a string is itself.\<close>

definition format_value :: "world \<Rightarrow> pyval \<Rightarrow> string" where
  "format_value w v = (case v of PStr s \<Rightarrow> s | _ \<Rightarrow> str_other w v)"

subsection \<open>\<^verbatim>\<open>strftime("%Y%m%d%H%M%S")\<close>\<close>

definition digit :: "nat \<Rightarrow> char" where
  "digit d = ''0123456789'' ! (d mod 10)"

fun decimal :: "nat \<Rightarrow> string" where
  "decimal n = (if n < 10 then [digit n] else decimal (n div 10) @ [digit n])"

text \<open>\<^verbatim>\<open>%m %d %H %M %S\<close> pad with zeros to two characters.\<close>

definition zfill :: "nat \<Rightarrow> string \<Rightarrow> string" where
  "zfill n s = replicate (n - length s) (CHR ''0'') @ s"

text \<open>
  \<^verbatim>\<open>%Y\<close> is the year in decimal as the C library of the Linux host prints it, without
  padding.
\<close>

definition strftime :: "datetime \<Rightarrow> string" where
  "strftime t =
     decimal (year t) @ zfill 2 (decimal (month t)) @ zfill 2 (decimal (day t))
     @ zfill 2 (decimal (hour t)) @ zfill 2 (decimal (minute t)) @ zfill 2 (decimal (second t))"

definition utcnow :: "world \<Rightarrow> datetime" where
  "utcnow w = wall_clock w (now_ms w)"

text \<open>What \<^verbatim>\<open>datetime\<close> can hold.\<close>

definition valid_datetime :: "datetime \<Rightarrow> bool" where
  "valid_datetime t \<longleftrightarrow>
     1 \<le> year t \<and> year t \<le> 9999 \<and> 1 \<le> month t \<and> month t \<le> 12 \<and> 1 \<le> day t \<and> day t \<le> 31
     \<and> hour t < 24 \<and> minute t < 60 \<and> second t < 60"

subsection \<open>Blob storage\<close>

text \<open>
  \<^verbatim>\<open>get_container_client(c).get_blob_client(b).download_blob().readall()\<close>.
\<close>

definition download_blob :: "world \<Rightarrow> string \<Rightarrow> string \<Rightarrow> string result" where
  "download_blob w c b =
     (case storage_fault w (now_ms w) of
        Some e \<Rightarrow> Inl e
      | None \<Rightarrow>
          (case containers w c of
             None \<Rightarrow> Inl ResourceNotFoundError
           | Some blobs \<Rightarrow>
               (case blobs b of None \<Rightarrow> Inl ResourceNotFoundError | Some d \<Rightarrow> Inr d)))"

text \<open>
  \<^verbatim>\<open>get_container_client(c).upload_blob(name=n, data=d)\<close>. The call passes no
  \<^verbatim>\<open>overwrite\<close> argument, so the SDK's default applies: an existing blob is not replaced,
  the call raises. Data that is not text is refused before anything is sent.
\<close>

definition upload_blob :: "world \<Rightarrow> string \<Rightarrow> string \<Rightarrow> pyval \<Rightarrow> world result" where
  "upload_blob w c n d =
     (case d of
        PStr s \<Rightarrow>
          (case storage_fault w (now_ms w) of
             Some e \<Rightarrow> Inl e
           | None \<Rightarrow>
               (case containers w c of
                  None \<Rightarrow> Inl ResourceNotFoundError
                | Some blobs \<Rightarrow>
                    (case blobs n of
                       Some old \<Rightarrow> Inl ResourceExistsError
                     | None \<Rightarrow> Inr (w\<lparr>containers := (containers w)(c \<mapsto> blobs(n \<mapsto> s))\<rparr>))))
      | _ \<Rightarrow> Inl TypeError)"

subsection \<open>The HTTP response\<close>

text \<open>\<^verbatim>\<open>resp.raise_for_status()\<close> of \<^verbatim>\<open>requests\<close>: client and server errors raise.\<close>

definition raise_for_status :: "http_response \<Rightarrow> unit result" where
  "raise_for_status resp =
     (if 400 \<le> status_code resp \<and> status_code resp < 600
      then Inl (HTTPError (status_code resp)) else Inr ())"

text \<open>\<^verbatim>\<open>resp.json()\<close>.\<close>

definition json :: "http_response \<Rightarrow> pyval result" where
  "json resp = (case body_json resp of None \<Rightarrow> Inl JSONDecodeError | Some v \<Rightarrow> Inr v)"

section \<open>The function app\<close>

subsection \<open>Module load (cold start)\<close>

text \<open>
  Line 17 is the only statement of the module that reads the environment when the module
  is imported: \<^verbatim>\<open>blob_svc = BlobServiceClient.from_connection_string(os.environ[...])\<close>.
\<close>

definition blob_svc :: "world \<Rightarrow> unit result" where
  "blob_svc w =
     and_then (getenv w ''BLOB_STORAGE_ENDPOINT'')
       (\<lambda>cs. case from_connection_string w cs of Some e \<Rightarrow> Inl e | None \<Rightarrow> Inr ())"

text \<open>
  The worker imports the module before it dispatches any invocation (trigger or activity)
  to a function the module registers; when the import raises, nothing is dispatched.
\<close>

definition dispatch :: "(world \<Rightarrow> 'r result \<times> world) \<Rightarrow> world \<Rightarrow> 'r result \<times> world" where
  "dispatch f w = (case blob_svc w of Inl e \<Rightarrow> (Inl e, w) | Inr svc \<Rightarrow> f w)"

subsection \<open>Blob trigger\<close>

definition blob_trigger :: "input_stream \<Rightarrow> world \<Rightarrow> unit result \<times> world" where
  "blob_trigger myblob w =
     (case last_item (split (name myblob) (CHR ''/'')) of
        Inl e \<Rightarrow> (Inl e, w)
      | Inr nm \<Rightarrow> (Inr (), w\<lparr>started := started w @ [(''orchestrator'', PStr nm)]\<rparr>))"

subsection \<open>Activities\<close>

definition analyze_pdf :: "string \<Rightarrow> world \<Rightarrow> pyval result \<times> world" where
  "analyze_pdf blobName w =
     (and_then (download_blob w ''input'' blobName) (\<lambda>pdf_bytes.
      and_then (getenv w ''COGNITIVE_SERVICES_ENDPOINT'') (\<lambda>ep.
      and_then (getenv w ''COGNITIVE_SERVICES_KEY'') (\<lambda>k.
      and_then (layout_service w (now_ms w)
                  \<lparr>analysis_endpoint = ep, analysis_key = k, model_id = ''prebuilt-layout'',
                   document = pdf_bytes, locale_hint = ''en-US''\<rparr>) (\<lambda>pages.
      Inr (PStr (join newline [content ln. p \<leftarrow> pages, ln \<leftarrow> lines p])))))),
      w)"

definition summarize_text :: "pyval \<Rightarrow> world \<Rightarrow> pyval result \<times> world" where
  "summarize_text text w =
     (case getenv w ''AZURE_OPENAI_ENDPOINT'' of
        Inl e \<Rightarrow> (Inl e, w)
      | Inr ep \<Rightarrow>
     (case getenv w ''AZURE_OPENAI_DEPLOYMENT_NAME'' of
        Inl e \<Rightarrow> (Inl e, w)
      | Inr deployment \<Rightarrow>
     (case getenv w ''AZURE_OPENAI_KEY'' of
        Inl e \<Rightarrow> (Inl e, w)
      | Inr api_key \<Rightarrow>
          (let endpoint = rstrip ep (CHR ''/'');
               api_ver = ''2025-01-01-preview'';
               req = \<lparr>http_method = ''POST'',
                      request_url = endpoint @ ''/openai/deployments/'' @ deployment
                                    @ ''/chat/completions?api-version='' @ api_ver,
                      headers = [(''api-key'', api_key), (''Content-Type'', ''application/json'')],
                      json_body = PDict [(''messages'',
                                           PList [PDict [(''role'', PStr ''user''), (''content'', text)]]),
                                         (''max_tokens'', PInt 200)]\<rparr>;
               w' = w\<lparr>http_log := http_log w @ [req]\<rparr>
           in (and_then (completion_service w (now_ms w) req) (\<lambda>resp.
               and_then (raise_for_status resp) (\<lambda>u.
               and_then (json resp) (\<lambda>j.
               and_then (getitem j ''choices'') (\<lambda>choices.
               and_then (getindex choices 0) (\<lambda>first.
               and_then (getitem first ''message'') (\<lambda>message.
               getitem message ''content'')))))),
               w')))))"

definition write_summary :: "pyval \<Rightarrow> world \<Rightarrow> pyval result \<times> world" where
  "write_summary input w =
     (case getitem input ''blob'' of
        Inl e \<Rightarrow> (Inl e, w)
      | Inr blob_name \<Rightarrow>
     (case getitem input ''summary'' of
        Inl e \<Rightarrow> (Inl e, w)
      | Inr summary \<Rightarrow>
          (let ts = strftime (utcnow w);
               out_name = format_value w blob_name @ ''-'' @ ts @ ''.txt''
           in (case upload_blob w ''output'' out_name summary of
                 Inl e \<Rightarrow> (Inl e, w)
               | Inr w' \<Rightarrow> (Inr (PStr out_name), w')))))"

subsection \<open>Orchestrator\<close>

text \<open>
  The orchestrator is a generator: it yields one task at a time and is resumed with the
  task's result. Each yield of the source is a \<open>Call_activity_with_retry\<close> node whose last
  argument is the rest of the generator's body. The activity to call is a constructor
  that carries the input, \<open>activity_name\<close> being the name the source passes as a string.
  The instance input is the document name the trigger passed, a string.
\<close>

record retry_options =
  first_retry_interval_in_milliseconds :: nat
  max_number_of_attempts :: nat

datatype activity_call =
    Analyze_pdf string
  | Summarize_text pyval
  | Write_summary pyval

fun activity_name :: "activity_call \<Rightarrow> string" where
  "activity_name (Analyze_pdf b) = ''analyze_pdf''"
| "activity_name (Summarize_text t) = ''summarize_text''"
| "activity_name (Write_summary i) = ''write_summary''"

datatype orchestration =
    Return pyval
  | Call_activity_with_retry activity_call retry_options "pyval \<Rightarrow> orchestration"

definition orchestrator :: "string \<Rightarrow> orchestration" where
  "orchestrator blob_name =
     (let opts = \<lparr>first_retry_interval_in_milliseconds = 5000, max_number_of_attempts = 3\<rparr>
      in Call_activity_with_retry (Analyze_pdf blob_name) opts (\<lambda>text.
         Call_activity_with_retry (Summarize_text text) opts (\<lambda>summary.
         Call_activity_with_retry
           (Write_summary (PDict [(''blob'', PStr blob_name), (''summary'', summary)])) opts (\<lambda>outblob.
         Return outblob))))"

section \<open>The orchestration host\<close>

text \<open>
  The Durable Functions host runs the tasks the orchestrator yields. A task with retry
  options is attempted until it succeeds or \<open>max_number_of_attempts\<close> attempts have
  failed, waiting \<open>first_retry_interval_in_milliseconds\<close> before each further attempt
  (the back-off coefficient is left at its default 1, so the delay is constant). The
  failure of the last attempt is raised inside the orchestrator, which has no handler:
  the instance fails. The host is given the activity implementations \<open>act\<close> and the
  passing of time \<open>wait\<close>; every attempt is recorded with its outcome.
  \<open>attempts f wait d n\<close> makes a first attempt and at most \<open>n\<close> further ones, so a ceiling
  of three is \<open>n = 2\<close>.
\<close>

type_synonym attempt = "activity_call \<times> pyval result"

fun attempts :: "('w \<Rightarrow> pyval result \<times> 'w) \<Rightarrow> (nat \<Rightarrow> 'w \<Rightarrow> 'w) \<Rightarrow> nat \<Rightarrow> nat \<Rightarrow> 'w
                 \<Rightarrow> pyval result \<times> pyval result list \<times> 'w" where
  "attempts f wait d 0 w = (case f w of (r, w') \<Rightarrow> (r, [r], w'))"
| "attempts f wait d (Suc n) w =
     (case f w of
        (Inr v, w') \<Rightarrow> (Inr v, [Inr v], w')
      | (Inl e, w') \<Rightarrow>
          (case attempts f wait d n (wait d w') of
             (r, rs, w'') \<Rightarrow> (r, Inl e # rs, w'')))"

definition call_activity_with_retry ::
  "(activity_call \<Rightarrow> 'w \<Rightarrow> pyval result \<times> 'w) \<Rightarrow> (nat \<Rightarrow> 'w \<Rightarrow> 'w) \<Rightarrow> activity_call
   \<Rightarrow> retry_options \<Rightarrow> 'w \<Rightarrow> pyval result \<times> attempt list \<times> 'w" where
  "call_activity_with_retry act wait a opts w =
     (case attempts (act a) wait (first_retry_interval_in_milliseconds opts)
             (max_number_of_attempts opts - 1) w of
        (r, rs, w') \<Rightarrow> (r, map (\<lambda>x. (a, x)) rs, w'))"

primrec run :: "(activity_call \<Rightarrow> 'w \<Rightarrow> pyval result \<times> 'w) \<Rightarrow> (nat \<Rightarrow> 'w \<Rightarrow> 'w)
                \<Rightarrow> orchestration \<Rightarrow> 'w \<Rightarrow> pyval result \<times> attempt list \<times> 'w" where
  "run act wait (Return v) = (\<lambda>w. (Inr v, [], w))"
| "run act wait (Call_activity_with_retry a opts k) =
     (\<lambda>w. case call_activity_with_retry act wait a opts w of
             (Inl e, tr, w') \<Rightarrow> (Inl e, tr, w')
           | (Inr v, tr, w') \<Rightarrow>
               (case run act wait (k v) w' of (r, tr', w'') \<Rightarrow> (r, tr @ tr', w'')))"

text \<open>The activities registered by the function app, and time passing in the world.\<close>

fun activity :: "activity_call \<Rightarrow> world \<Rightarrow> pyval result \<times> world" where
  "activity (Analyze_pdf blobName) = analyze_pdf blobName"
| "activity (Summarize_text text) = summarize_text text"
| "activity (Write_summary input) = write_summary input"

definition sleep :: "nat \<Rightarrow> world \<Rightarrow> world" where
  "sleep d w = w\<lparr>now_ms := now_ms w + d\<rparr>"

definition run_instance :: "string \<Rightarrow> world \<Rightarrow> pyval result \<times> attempt list \<times> world" where
  "run_instance blob_name w = run activity sleep (orchestrator blob_name) w"

section \<open>Reference definitions and a sample deployment\<close>

text \<open>The part of a path after its last separator; the whole path when it has none.\<close>

definition after_last :: "char \<Rightarrow> string \<Rightarrow> string" where
  "after_last c s = rev (takeWhile (\<lambda>x. x \<noteq> c) (rev s))"

text \<open>The number a string of decimal digits denotes, leading zeros allowed.\<close>

definition digit_value :: "char \<Rightarrow> nat" where
  "digit_value c = of_char c - 48"

definition number_of :: "string \<Rightarrow> nat" where
  "number_of s = foldl (\<lambda>a c. 10 * a + digit_value c) 0 s"

text \<open>Every line of every page: page by page, and within a page line by line.\<close>

fun all_lines :: "page list \<Rightarrow> string list" where
  "all_lines [] = []"
| "all_lines (p # ps) = map content (lines p) @ all_lines ps"

text \<open>
  The request that reaches the completion endpoint, given the three settings as read from
  the environment: a POST with the key in the \<open>api-key\<close> header and a body of one user
  message and a budget of 200 tokens.
\<close>

definition chat_request :: "string \<Rightarrow> string \<Rightarrow> string \<Rightarrow> pyval \<Rightarrow> http_request" where
  "chat_request ep deployment api_key text =
     \<lparr>http_method = ''POST'',
      request_url = rstrip ep (CHR ''/'') @ ''/openai/deployments/'' @ deployment
                    @ ''/chat/completions?api-version=2025-01-01-preview'',
      headers = [(''api-key'', api_key), (''Content-Type'', ''application/json'')],
      json_body = PDict [(''messages'', PList [PDict [(''role'', PStr ''user''), (''content'', text)]]),
                         (''max_tokens'', PInt 200)]\<rparr>"

text \<open>The reply a response carries at \<^verbatim>\<open>choices[0].message.content\<close>, when it has one.\<close>

fun first_choice_content :: "pyval \<Rightarrow> pyval option" where
  "first_choice_content (PDict d) =
     (case map_of d ''choices'' of
        Some (PList (PDict c # rest)) \<Rightarrow>
          (case map_of c ''message'' of
             Some (PDict m) \<Rightarrow> map_of m ''content''
           | _ \<Rightarrow> None)
      | _ \<Rightarrow> None)"
| "first_choice_content v = None"

text \<open>The retry options the orchestrator builds.\<close>

definition opts3 :: retry_options where
  "opts3 = \<lparr>first_retry_interval_in_milliseconds = 5000, max_number_of_attempts = 3\<rparr>"


text \<open>
  A deployment with every setting present, one two-line document in the input container,
  an empty output container, and a completion endpoint that answers 200 with one choice.
\<close>

definition invoice_environ :: "string \<rightharpoonup> string" where
  "invoice_environ = map_of
     [(''BLOB_STORAGE_ENDPOINT'', ''UseDevelopmentStorage=true''),
      (''COGNITIVE_SERVICES_ENDPOINT'', ''https://ocr.example/''),
      (''COGNITIVE_SERVICES_KEY'', ''k1''),
      (''AZURE_OPENAI_ENDPOINT'', ''https://llm.example//''),
      (''AZURE_OPENAI_DEPLOYMENT_NAME'', ''gpt''),
      (''AZURE_OPENAI_KEY'', ''k2'')]"

definition invoice_pages :: "page list" where
  "invoice_pages = [\<lparr>lines = [\<lparr>content = ''Line 1''\<rparr>, \<lparr>content = ''Line 2''\<rparr>]\<rparr>]"

definition ok_response :: "pyval \<Rightarrow> http_response" where
  "ok_response v =
     \<lparr>status_code = 200,
      body_json = Some (PDict [(''choices'',
                    PList [PDict [(''message'',
                             PDict [(''role'', PStr ''assistant''), (''content'', v)])]])])\<rparr>"

definition invoice_world :: world where
  "invoice_world =
     \<lparr>environ = invoice_environ,
      from_connection_string = (\<lambda>cs. None),
      containers = [''input'' \<mapsto> [''invoice.pdf'' \<mapsto> ''%PDF-1.7''], ''output'' \<mapsto> Map.empty],
      storage_fault = (\<lambda>t. None),
      now_ms = 0,
      wall_clock = (\<lambda>t. \<lparr>year = 2025, month = 1, day = 1, hour = 12, minute = 0, second = 0\<rparr>),
      layout_service = (\<lambda>t req. Inr invoice_pages),
      completion_service = (\<lambda>t req. Inr (ok_response (PStr ''S''))),
      http_log = [],
      started = [],
      str_other = (\<lambda>v. [])\<rparr>"



text \<open>An endpoint that answers 200 with an empty JSON object.\<close>

definition no_choices_world :: world where
  "no_choices_world =
     invoice_world\<lparr>completion_service := (\<lambda>t req. Inr \<lparr>status_code = 200, body_json = Some (PDict [])\<rparr>)\<rparr>"


text \<open>The sample deployment with the completion key not set.\<close>

definition no_openai_key_world :: world where
  "no_openai_key_world = invoice_world\<lparr>environ := invoice_environ(''AZURE_OPENAI_KEY'' := None)\<rparr>"

text \<open>
  The sample deployment with a clock that advances: the seconds follow the instant.
\<close>

definition ticking_world :: world where
  "ticking_world =
     invoice_world\<lparr>wall_clock :=
       (\<lambda>t. \<lparr>year = 2025, month = 1, day = 1, hour = 12, minute = 0, second = (t div 1000) mod 60\<rparr>)\<rparr>"

definition invoice_input :: pyval where
  "invoice_input = PDict [(''blob'', PStr ''invoice.pdf''), (''summary'', PStr ''S'')]"

section \<open>Lemmas about the primitives\<close>

declare decimal.simps [simp del]

lemma split_nonempty: "split s c \<noteq> []"
  by (induction s) (auto split: list.splits)

lemma split_no_sep: "c \<notin> set s \<Longrightarrow> split s c = [s]"
  by (induction s) auto

lemma split_sep: "c \<in> set s \<Longrightarrow> \<exists>y z zs. split s c = y # z # zs"
proof (induction s)
  case Nil
  then show ?case by simp
next
  case (Cons x xs)
  show ?case
  proof (cases "x = c")
    case True
    obtain y ys where "split xs c = y # ys"
      using split_nonempty [of xs c] by (cases "split xs c") auto
    with True show ?thesis by simp
  next
    case False
    with Cons.prems have "c \<in> set xs" by simp
    then obtain y z zs where "split xs c = y # z # zs"
      using Cons.IH by blast
    with False show ?thesis by simp
  qed
qed

lemma takeWhile_snoc:
  "takeWhile P (ys @ [c]) =
     (if \<forall>y\<in>set ys. P y then ys @ (if P c then [c] else []) else takeWhile P ys)"
  by (induction ys) auto

lemma last_split: "last (split s c) = after_last c s"
proof (induction s)
  case Nil
  then show ?case by (simp add: after_last_def)
next
  case (Cons x xs)
  show ?case
  proof (cases "x = c")
    case True
    then show ?thesis
      using Cons split_nonempty [of xs c] by (simp add: after_last_def takeWhile_snoc)
  next
    case False
    show ?thesis
    proof (cases "c \<in> set xs")
      case True
      then obtain y z zs where "split xs c = y # z # zs"
        using split_sep by blast
      then show ?thesis
        using Cons False True by (auto simp add: after_last_def takeWhile_snoc)
    next
      case False
      then show ?thesis
        using Cons \<open>x \<noteq> c\<close> by (simp add: after_last_def split_no_sep takeWhile_snoc)
    qed
  qed
qed

lemma after_last_free: "c \<notin> set (after_last c s)"
proof
  assume "c \<in> set (after_last c s)"
  then have "c \<in> set (takeWhile (\<lambda>x. x \<noteq> c) (rev s))"
    by (simp add: after_last_def)
  then show False
    using set_takeWhileD by fastforce
qed

lemma after_last_decomp: "s = after_last c s \<or> (\<exists>pre. s = pre @ [c] @ after_last c s)"
proof (cases "c \<in> set s")
  case False
  then have "takeWhile (\<lambda>x. x \<noteq> c) (rev s) = rev s"
    by (auto simp add: takeWhile_eq_all_conv)
  then have "after_last c s = s"
    unfolding after_last_def by (simp only: rev_rev_ident)
  then show ?thesis by simp
next
  case True
  then have "dropWhile (\<lambda>x. x \<noteq> c) (rev s) \<noteq> []"
    by simp
  then obtain ys where ys: "dropWhile (\<lambda>x. x \<noteq> c) (rev s) = c # ys"
    by (metis (mono_tags, lifting) hd_dropWhile list.collapse)
  have "rev s = takeWhile (\<lambda>x. x \<noteq> c) (rev s) @ c # ys"
    using ys takeWhile_dropWhile_id [of "\<lambda>x. x \<noteq> c" "rev s"] by simp
  then have "s = rev ys @ [c] @ after_last c s"
    by (metis after_last_def append.assoc append_Cons append_Nil rev.simps(2) rev_append rev_rev_ident)
  then show ?thesis by blast
qed


lemma all_lines_append: "all_lines (ps @ qs) = all_lines ps @ all_lines qs"
  by (induction ps) simp_all


lemma digit_is_digit: "digit d \<in> set ''0123456789''"
proof -
  have "d mod 10 < length ''0123456789''" by simp
  then show ?thesis unfolding digit_def by (rule nth_mem)
qed

lemma decimal_digits: "set (decimal n) \<subseteq> set ''0123456789''"
proof (induction n rule: decimal.induct)
  case (1 n)
  show ?case
  proof (cases "n < 10")
    case True
    then have "decimal n = [digit n]" by (simp add: decimal.simps)
    then show ?thesis using digit_is_digit [of n] by simp
  next
    case False
    then have "decimal n = decimal (n div 10) @ [digit n]" by (subst decimal.simps) simp
    then show ?thesis using 1 False digit_is_digit [of n] by simp
  qed
qed

lemma length_decimal_1: "n < 10 \<Longrightarrow> length (decimal n) = 1"
  by (simp add: decimal.simps)

lemma length_decimal_step: "10 \<le> n \<Longrightarrow> length (decimal n) = Suc (length (decimal (n div 10)))"
  by (subst decimal.simps) simp

lemma length_decimal_2:
  assumes "10 \<le> n" and "n < 100"
  shows "length (decimal n) = 2"
proof -
  from assms have "n div 10 < 10" by arith
  then show ?thesis
    using assms length_decimal_step [of n] length_decimal_1 [of "n div 10"] by simp
qed

lemma length_decimal_3:
  assumes "100 \<le> n" and "n < 1000"
  shows "length (decimal n) = 3"
proof -
  from assms have "10 \<le> n div 10" "n div 10 < 100" by arith+
  then show ?thesis
    using assms length_decimal_step [of n] length_decimal_2 [of "n div 10"] by simp
qed

lemma length_decimal_4:
  assumes "1000 \<le> n" and "n < 10000"
  shows "length (decimal n) = 4"
proof -
  from assms have "100 \<le> n div 10" "n div 10 < 1000" by arith+
  then show ?thesis
    using assms length_decimal_step [of n] length_decimal_3 [of "n div 10"] by simp
qed

lemma length_zfill_2: "n < 100 \<Longrightarrow> length (zfill 2 (decimal n)) = 2"
proof (cases "n < 10")
  case True
  then show ?thesis by (simp add: zfill_def length_decimal_1)
next
  case False
  assume "n < 100"
  with False show ?thesis by (simp add: zfill_def length_decimal_2)
qed

lemma zfill_digits: "set (zfill k (decimal n)) \<subseteq> set ''0123456789''"
  using decimal_digits [of n] by (auto simp add: zfill_def)

lemma length_strftime:
  assumes "valid_datetime t" and "1000 \<le> year t"
  shows "length (strftime t) = 14"
proof -
  from assms have "length (decimal (year t)) = 4"
    by (simp add: valid_datetime_def length_decimal_4)
  moreover from assms have "length (zfill 2 (decimal (month t))) = 2" "length (zfill 2 (decimal (day t))) = 2"
    "length (zfill 2 (decimal (hour t))) = 2" "length (zfill 2 (decimal (minute t))) = 2"
    "length (zfill 2 (decimal (second t))) = 2"
    by (simp_all add: valid_datetime_def length_zfill_2)
  ultimately show ?thesis by (simp add: strftime_def)
qed

lemma strftime_digits: "set (strftime t) \<subseteq> set ''0123456789''"
  unfolding strftime_def set_append
  using decimal_digits [of "year t"] zfill_digits [of 2 "month t"] zfill_digits [of 2 "day t"]
    zfill_digits [of 2 "hour t"] zfill_digits [of 2 "minute t"] zfill_digits [of 2 "second t"]
  by blast

lemma below_ten:
  fixes k :: nat
  assumes "k < 10"
  shows "k = 0 \<or> k = 1 \<or> k = 2 \<or> k = 3 \<or> k = 4 \<or> k = 5 \<or> k = 6 \<or> k = 7 \<or> k = 8 \<or> k = 9"
  using assms by arith

lemma digit_value_digit: "digit_value (digit d) = d mod 10"
proof -
  have "d mod 10 < 10" by simp
  from below_ten [OF this] show ?thesis
    unfolding digit_def by (elim disjE) (simp_all add: digit_value_def)
qed

lemma number_of_snoc: "number_of (s @ [c]) = 10 * number_of s + digit_value c"
  by (simp add: number_of_def)

lemma number_of_decimal: "number_of (decimal n) = n"
proof (induction n rule: decimal.induct)
  case (1 n)
  show ?case
  proof (cases "n < 10")
    case True
    then show ?thesis
      by (simp add: decimal.simps number_of_def digit_value_digit)
  next
    case False
    then have "decimal n = decimal (n div 10) @ [digit n]" by (subst decimal.simps) simp
    then show ?thesis
      using 1 False by (simp add: number_of_snoc digit_value_digit)
  qed
qed

lemma number_of_zeros: "number_of (replicate m (CHR ''0'') @ s) = number_of s"
  by (induction m) (simp_all add: number_of_def digit_value_def)

lemma number_of_zfill: "number_of (zfill k (decimal n)) = n"
  by (simp add: zfill_def number_of_zeros number_of_decimal)

lemma strftime_fields:
  assumes "valid_datetime t" and "1000 \<le> year t"
  shows "number_of (take 4 (strftime t)) = year t"
    and "number_of (take 2 (drop 4 (strftime t))) = month t"
    and "number_of (take 2 (drop 6 (strftime t))) = day t"
    and "number_of (take 2 (drop 8 (strftime t))) = hour t"
    and "number_of (take 2 (drop 10 (strftime t))) = minute t"
    and "number_of (take 2 (drop 12 (strftime t))) = second t"
proof -
  from assms have y: "length (decimal (year t)) = 4"
    by (simp add: valid_datetime_def length_decimal_4)
  from assms have l: "length (zfill 2 (decimal (month t))) = 2" "length (zfill 2 (decimal (day t))) = 2"
    "length (zfill 2 (decimal (hour t))) = 2" "length (zfill 2 (decimal (minute t))) = 2"
    "length (zfill 2 (decimal (second t))) = 2"
    by (simp_all add: valid_datetime_def length_zfill_2)
  show "number_of (take 4 (strftime t)) = year t"
    by (simp add: strftime_def y number_of_decimal)
  show "number_of (take 2 (drop 4 (strftime t))) = month t"
    by (simp add: strftime_def y l number_of_zfill)
  show "number_of (take 2 (drop 6 (strftime t))) = day t"
    by (simp add: strftime_def y l number_of_zfill)
  show "number_of (take 2 (drop 8 (strftime t))) = hour t"
    by (simp add: strftime_def y l number_of_zfill)
  show "number_of (take 2 (drop 10 (strftime t))) = minute t"
    by (simp add: strftime_def y l number_of_zfill)
  show "number_of (take 2 (drop 12 (strftime t))) = second t"
    by (simp add: strftime_def y l number_of_zfill)
qed




lemma write_summary_success:
  assumes "map_of d ''blob'' = Some (PStr f)" and "map_of d ''summary'' = Some (PStr S)"
    and "write_summary (PDict d) w = (Inr out, w')"
  shows "\<exists>blobs. containers w ''output'' = Some blobs
           \<and> blobs (f @ ''-'' @ strftime (utcnow w) @ ''.txt'') = None
           \<and> out = PStr (f @ ''-'' @ strftime (utcnow w) @ ''.txt'')
           \<and> w' = w\<lparr>containers := (containers w)(''output'' \<mapsto>
                       blobs(f @ ''-'' @ strftime (utcnow w) @ ''.txt'' \<mapsto> S))\<rparr>"
  using assms
  by (auto simp add: write_summary_def upload_blob_def format_value_def Let_def
      split: option.splits sum.splits)

lemma summarize_text_unfold:
  assumes "environ w ''AZURE_OPENAI_ENDPOINT'' = Some ep"
    and "environ w ''AZURE_OPENAI_DEPLOYMENT_NAME'' = Some dep"
    and "environ w ''AZURE_OPENAI_KEY'' = Some key"
  shows "summarize_text text w =
     (and_then (completion_service w (now_ms w) (chat_request ep dep key text)) (\<lambda>resp.
      and_then (raise_for_status resp) (\<lambda>u.
      and_then (json resp) (\<lambda>j.
      and_then (getitem j ''choices'') (\<lambda>choices.
      and_then (getindex choices 0) (\<lambda>first.
      and_then (getitem first ''message'') (\<lambda>message.
      getitem message ''content'')))))),
      w\<lparr>http_log := http_log w @ [chat_request ep dep key text]\<rparr>)"
  using assms by (simp add: summarize_text_def getenv_def chat_request_def Let_def)

lemma content_path:
  "and_then (getitem j ''choices'') (\<lambda>choices.
      and_then (getindex choices 0) (\<lambda>first.
      and_then (getitem first ''message'') (\<lambda>message.
      getitem message ''content''))) = Inr v \<longleftrightarrow> first_choice_content j = Some v"
  by (cases j; simp add: and_then_def split: option.splits)
    (auto split: pyval.splits list.splits option.splits sum.splits)

lemma summarize_text_answer:
  assumes "environ w ''AZURE_OPENAI_ENDPOINT'' = Some ep"
    and "environ w ''AZURE_OPENAI_DEPLOYMENT_NAME'' = Some dep"
    and "environ w ''AZURE_OPENAI_KEY'' = Some key"
    and "completion_service w (now_ms w) (chat_request ep dep key text) = Inr resp"
  shows "fst (summarize_text text w) =
     (if 400 \<le> status_code resp \<and> status_code resp < 600 then Inl (HTTPError (status_code resp))
      else case body_json resp of
             None \<Rightarrow> Inl JSONDecodeError
           | Some j \<Rightarrow>
               and_then (getitem j ''choices'') (\<lambda>choices.
               and_then (getindex choices 0) (\<lambda>first.
               and_then (getitem first ''message'') (\<lambda>message.
               getitem message ''content''))))"
  using assms(4)
  by (simp add: summarize_text_unfold [OF assms(1-3)] and_then_def raise_for_status_def json_def
      split: option.splits)

subsection \<open>The host's retry loop and the shape of a run\<close>

lemma attempts_shape:
  "attempts f wait d n w = (r, rs, w') \<Longrightarrow>
     (\<exists>fails. rs = map Inl fails @ [r] \<and> length fails \<le> n \<and> (isl r \<longrightarrow> length fails = n))"
proof (induction n arbitrary: w r rs w')
  case 0
  then have "rs = [r]" by (auto split: prod.splits)
  then have "rs = map Inl [] @ [r]" by simp
  then show ?case by (metis le_zero_eq list.size(3))
next
  case (Suc n)
  obtain r0 w0 where f: "f w = (r0, w0)" by (cases "f w")
  show ?case
  proof (cases r0)
    case (Inr v)
    with Suc.prems f have "rs = map Inl [] @ [r]" "r = Inr v" by auto
    then show ?thesis by (metis isl_def le0 list.size(3) sum.distinct(1))
  next
    case (Inl e)
    obtain r1 rs1 w1 where a: "attempts f wait d n (wait d w0) = (r1, rs1, w1)"
      by (cases "attempts f wait d n (wait d w0)")
    with Suc.prems f Inl have eq: "r = r1" "rs = Inl e # rs1" by auto
    from Suc.IH [OF a] obtain fails where
      "rs1 = map Inl fails @ [r1]" "length fails \<le> n" "isl r1 \<longrightarrow> length fails = n" by blast
    then have "rs = map Inl (e # fails) @ [r]" "length (e # fails) \<le> Suc n"
      "isl r \<longrightarrow> length (e # fails) = Suc n"
      using eq by auto
    then show ?thesis by blast
  qed
qed



lemma call_shape:
  assumes "call_activity_with_retry act wait c opts3 w = (r, tr, w')"
  shows "\<exists>fails. tr = map (\<lambda>e. (c, Inl e)) fails @ [(c, r)] \<and> length fails \<le> 2
           \<and> (isl r \<longrightarrow> length fails = 2)"
proof -
  obtain rs where a: "attempts (act c) wait 5000 2 w = (r, rs, w')" and tr: "tr = map (\<lambda>x. (c, x)) rs"
    using assms by (auto simp add: call_activity_with_retry_def opts3_def split: prod.splits)
  from attempts_shape [OF a] obtain fails where
    "rs = map Inl fails @ [r]" "length fails \<le> 2" "isl r \<longrightarrow> length fails = 2" by blast
  then have "tr = map (\<lambda>e. (c, Inl e)) fails @ [(c, r)]"
    using tr by (simp add: comp_def)
  then show ?thesis
    using \<open>length fails \<le> 2\<close> \<open>isl r \<longrightarrow> length fails = 2\<close> by blast
qed



lemma run_orchestrator:
  "run act wait (orchestrator b) w =
     (case call_activity_with_retry act wait (Analyze_pdf b) opts3 w of
        (Inl e, tr1, w1) \<Rightarrow> (Inl e, tr1, w1)
      | (Inr text, tr1, w1) \<Rightarrow>
     (case call_activity_with_retry act wait (Summarize_text text) opts3 w1 of
        (Inl e, tr2, w2) \<Rightarrow> (Inl e, tr1 @ tr2, w2)
      | (Inr summary, tr2, w2) \<Rightarrow>
     (case call_activity_with_retry act wait
             (Write_summary (PDict [(''blob'', PStr b), (''summary'', summary)])) opts3 w2 of
        (Inl e, tr3, w3) \<Rightarrow> (Inl e, tr1 @ tr2 @ tr3, w3)
      | (Inr outblob, tr3, w3) \<Rightarrow> (Inr outblob, tr1 @ tr2 @ tr3, w3))))"
  by (simp add: orchestrator_def opts3_def Let_def split: prod.splits sum.splits)

lemma run_orchestrator_cases:
  assumes "run act wait (orchestrator b) w = (r, tr, w')"
  obtains
    (extraction) e where
      "call_activity_with_retry act wait (Analyze_pdf b) opts3 w = (Inl e, tr, w')" "r = Inl e"
  | (summarization) extracted tr1 w1 e tr2 where
      "call_activity_with_retry act wait (Analyze_pdf b) opts3 w = (Inr extracted, tr1, w1)"
      "call_activity_with_retry act wait (Summarize_text extracted) opts3 w1 = (Inl e, tr2, w')"
      "tr = tr1 @ tr2" "r = Inl e"
  | (persistence) extracted tr1 w1 summary tr2 w2 e tr3 where
      "call_activity_with_retry act wait (Analyze_pdf b) opts3 w = (Inr extracted, tr1, w1)"
      "call_activity_with_retry act wait (Summarize_text extracted) opts3 w1 = (Inr summary, tr2, w2)"
      "call_activity_with_retry act wait
         (Write_summary (PDict [(''blob'', PStr b), (''summary'', summary)])) opts3 w2 = (Inl e, tr3, w')"
      "tr = tr1 @ tr2 @ tr3" "r = Inl e"
  | (success) extracted tr1 w1 summary tr2 w2 outblob tr3 where
      "call_activity_with_retry act wait (Analyze_pdf b) opts3 w = (Inr extracted, tr1, w1)"
      "call_activity_with_retry act wait (Summarize_text extracted) opts3 w1 = (Inr summary, tr2, w2)"
      "call_activity_with_retry act wait
         (Write_summary (PDict [(''blob'', PStr b), (''summary'', summary)])) opts3 w2 = (Inr outblob, tr3, w')"
      "tr = tr1 @ tr2 @ tr3" "r = Inr outblob"
  using assms unfolding run_orchestrator
  by (auto split: prod.splits sum.splits)

lemma filter_done_segment:
  "filter (\<lambda>x. \<not> isl (snd x)) (map (\<lambda>e. (c, Inl e)) fails @ [(c, Inr v)]) = [(c, Inr v)]"
  by (induction fails) simp_all

lemma remdups_adj_replicate: "remdups_adj (replicate n c @ c # ys) = remdups_adj (c # ys)"
proof (induction n)
  case 0
  then show ?case by simp
next
  case (Suc n)
  obtain zs where zs: "replicate n c @ c # ys = c # zs"
    by (cases n) auto
  have "remdups_adj (replicate (Suc n) c @ c # ys) = remdups_adj (c # c # zs)"
    by (simp add: zs)
  also have "\<dots> = remdups_adj (c # zs)" by simp
  also have "\<dots> = remdups_adj (c # ys)" using Suc zs by simp
  finally show ?case .
qed

lemma remdups_adj_segment:
  "remdups_adj (map fst (map (\<lambda>e. (c, Inl e)) fails @ [(c, r)]) @ ys) = remdups_adj (c # ys)"
proof -
  have "map fst (map (\<lambda>e. (c, Inl e)) fails @ [(c, r)]) @ ys = replicate (length fails) c @ c # ys"
    by (simp add: comp_def map_replicate_const)
  then show ?thesis by (simp only: remdups_adj_replicate)
qed



lemma successful_run_shape:
  assumes "run act wait (orchestrator blob_name) w = (Inr outblob, tr, w')"
  shows "\<exists>extracted summary.
           filter (\<lambda>x. \<not> isl (snd x)) tr =
             [(Analyze_pdf blob_name, Inr extracted),
              (Summarize_text extracted, Inr summary),
              (Write_summary (PDict [(''blob'', PStr blob_name), (''summary'', summary)]), Inr outblob)]
           \<and> remdups_adj (map fst tr) =
             [Analyze_pdf blob_name, Summarize_text extracted,
              Write_summary (PDict [(''blob'', PStr blob_name), (''summary'', summary)])]"
  using assms
proof (cases rule: run_orchestrator_cases)
  case (success extracted tr1 w1 summary tr2 w2 out tr3)
  let ?W = "Write_summary (PDict [(''blob'', PStr blob_name), (''summary'', summary)])"
  from success(5) have out: "out = outblob" by simp
  obtain f1 where t1: "tr1 = map (\<lambda>e. (Analyze_pdf blob_name, Inl e)) f1 @ [(Analyze_pdf blob_name, Inr extracted)]"
    using call_shape [OF success(1)] by blast
  obtain f2 where t2: "tr2 = map (\<lambda>e. (Summarize_text extracted, Inl e)) f2 @ [(Summarize_text extracted, Inr summary)]"
    using call_shape [OF success(2)] by blast
  obtain f3 where t3: "tr3 = map (\<lambda>e. (?W, Inl e)) f3 @ [(?W, Inr outblob)]"
    using call_shape [OF success(3)] out by blast
  have "filter (\<lambda>x. \<not> isl (snd x)) tr =
          [(Analyze_pdf blob_name, Inr extracted), (Summarize_text extracted, Inr summary), (?W, Inr outblob)]"
    unfolding success(4) filter_append t1 t2 t3 filter_done_segment by simp
  moreover have "remdups_adj (map fst tr) = [Analyze_pdf blob_name, Summarize_text extracted, ?W]"
  proof -
    have "map fst tr = map fst tr1 @ (map fst tr2 @ (map fst tr3 @ []))"
      by (simp add: success(4))
    also have "remdups_adj \<dots> = remdups_adj (Analyze_pdf blob_name # map fst tr2 @ (map fst tr3 @ []))"
      unfolding t1 by (rule remdups_adj_segment)
    also have "\<dots> = Analyze_pdf blob_name # remdups_adj (map fst tr2 @ (map fst tr3 @ []))"
      unfolding t2 by (cases f2) simp_all
    also have "remdups_adj (map fst tr2 @ (map fst tr3 @ [])) = remdups_adj (Summarize_text extracted # map fst tr3 @ [])"
      unfolding t2 by (rule remdups_adj_segment)
    also have "\<dots> = Summarize_text extracted # remdups_adj (map fst tr3 @ [])"
      unfolding t3 by (cases f3) simp_all
    also have "remdups_adj (map fst tr3 @ []) = remdups_adj (?W # [])"
      unfolding t3 by (rule remdups_adj_segment)
    finally show ?thesis by simp
  qed
  ultimately show ?thesis by blast
qed simp_all

lemma names_segment:
  "remdups_adj (map (activity_name \<circ> fst) (map (\<lambda>e. (c, Inl e)) fails @ [(c, r)]) @ ys)
     = remdups_adj (activity_name c # ys)"
proof -
  have "map (activity_name \<circ> fst) (map (\<lambda>e. (c, Inl e)) fails @ [(c, r)]) @ ys
          = replicate (length fails) (activity_name c) @ activity_name c # ys"
    by (simp add: comp_def map_replicate_const)
  then show ?thesis by (simp only: remdups_adj_replicate)
qed

lemma run_step_names:
  assumes "run act wait (orchestrator blob_name) w = (r, tr, w')"
  shows "remdups_adj (map (activity_name \<circ> fst) tr)
           \<in> {[''analyze_pdf''], [''analyze_pdf'', ''summarize_text''],
               [''analyze_pdf'', ''summarize_text'', ''write_summary'']}"
proof -
  let ?n = "activity_name \<circ> fst"
  have one: "remdups_adj (map ?n tr1) = [''analyze_pdf'']"
    if h1: "call_activity_with_retry act wait (Analyze_pdf blob_name) opts3 w = (r1, tr1, w1)"
    for r1 tr1 w1
  proof -
    obtain f1 where "tr1 = map (\<lambda>e. (Analyze_pdf blob_name, Inl e)) f1 @ [(Analyze_pdf blob_name, r1)]"
      using call_shape [OF h1] by blast
    then show ?thesis using names_segment [of "Analyze_pdf blob_name" f1 r1 "[]"] by simp
  qed
  have two: "remdups_adj (map ?n (tr1 @ tr2)) = [''analyze_pdf'', ''summarize_text'']"
    if h1: "call_activity_with_retry act wait (Analyze_pdf blob_name) opts3 w = (r1, tr1, w1)"
      and h2: "call_activity_with_retry act wait (Summarize_text x) opts3 w1 = (r2, tr2, w2)"
    for r1 tr1 w1 x r2 tr2 w2
  proof -
    obtain f1 where t1: "tr1 = map (\<lambda>e. (Analyze_pdf blob_name, Inl e)) f1 @ [(Analyze_pdf blob_name, r1)]"
      using call_shape [OF h1] by blast
    obtain f2 where t2: "tr2 = map (\<lambda>e. (Summarize_text x, Inl e)) f2 @ [(Summarize_text x, r2)]"
      using call_shape [OF h2] by blast
    have "remdups_adj (map ?n (tr1 @ tr2)) = remdups_adj (''analyze_pdf'' # map ?n tr2)"
      unfolding map_append t1 using names_segment [of "Analyze_pdf blob_name" f1 r1] by simp
    also have "\<dots> = ''analyze_pdf'' # remdups_adj (map ?n tr2 @ [])"
      unfolding t2 by (cases f2) simp_all
    also have "remdups_adj (map ?n tr2 @ []) = [''summarize_text'']"
      unfolding t2 using names_segment [of "Summarize_text x" f2 r2 "[]"] by simp
    finally show ?thesis .
  qed
  have three: "remdups_adj (map ?n (tr1 @ tr2 @ tr3)) = [''analyze_pdf'', ''summarize_text'', ''write_summary'']"
    if h1: "call_activity_with_retry act wait (Analyze_pdf blob_name) opts3 w = (r1, tr1, w1)"
      and h2: "call_activity_with_retry act wait (Summarize_text x) opts3 w1 = (r2, tr2, w2)"
      and h3: "call_activity_with_retry act wait (Write_summary y) opts3 w2 = (r3, tr3, w3)"
    for r1 tr1 w1 x r2 tr2 w2 y r3 tr3 w3
  proof -
    obtain f1 where t1: "tr1 = map (\<lambda>e. (Analyze_pdf blob_name, Inl e)) f1 @ [(Analyze_pdf blob_name, r1)]"
      using call_shape [OF h1] by blast
    obtain f2 where t2: "tr2 = map (\<lambda>e. (Summarize_text x, Inl e)) f2 @ [(Summarize_text x, r2)]"
      using call_shape [OF h2] by blast
    obtain f3 where t3: "tr3 = map (\<lambda>e. (Write_summary y, Inl e)) f3 @ [(Write_summary y, r3)]"
      using call_shape [OF h3] by blast
    have "remdups_adj (map ?n (tr1 @ tr2 @ tr3)) = remdups_adj (''analyze_pdf'' # map ?n tr2 @ map ?n tr3)"
      unfolding map_append t1 using names_segment [of "Analyze_pdf blob_name" f1 r1] by simp
    also have "\<dots> = ''analyze_pdf'' # remdups_adj (map ?n tr2 @ map ?n tr3)"
      unfolding t2 by (cases f2) simp_all
    also have "remdups_adj (map ?n tr2 @ map ?n tr3) = remdups_adj (''summarize_text'' # map ?n tr3)"
      unfolding t2 using names_segment [of "Summarize_text x" f2 r2] by simp
    also have "\<dots> = ''summarize_text'' # remdups_adj (map ?n tr3 @ [])"
      unfolding t3 by (cases f3) simp_all
    also have "remdups_adj (map ?n tr3 @ []) = [''write_summary'']"
      unfolding t3 using names_segment [of "Write_summary y" f3 r3 "[]"] by simp
    finally show ?thesis .
  qed
  from assms show ?thesis
  proof (cases rule: run_orchestrator_cases)
    case (extraction e)
    then show ?thesis using one by simp
  next
    case (summarization extracted tr1 w1 e tr2)
    then show ?thesis using two by simp
  next
    case (persistence extracted tr1 w1 summary tr2 w2 e tr3)
    then show ?thesis using three by simp
  next
    case (success extracted tr1 w1 summary tr2 w2 outblob tr3)
    then show ?thesis using three by simp
  qed
qed

subsection \<open>What the activities leave untouched\<close>





subsection \<open>The sample deployments, evaluated\<close>

lemmas eval_defs = run_instance_def orchestrator_def call_activity_with_retry_def
  analyze_pdf_def summarize_text_def write_summary_def download_blob_def upload_blob_def
  getenv_def and_then_def raise_for_status_def json_def format_value_def strftime_def utcnow_def
  zfill_def digit_def decimal.simps sleep_def newline_def rstrip_def Let_def numeral_2_eq_2

lemma invoice_result:
  "fst (run_instance ''invoice.pdf'' invoice_world) = Inr (PStr ''invoice.pdf-20250101120000.txt'')"
  by (simp add: eval_defs invoice_world_def invoice_environ_def invoice_pages_def ok_response_def)


lemma invoice_analyze:
  "analyze_pdf ''invoice.pdf'' invoice_world
     = (Inr (PStr (''Line 1'' @ [CHR 0x0A] @ ''Line 2'')), invoice_world)"
  by (simp add: eval_defs invoice_world_def invoice_environ_def invoice_pages_def)

lemma no_key_result:
  "fst (run_instance ''invoice.pdf'' no_openai_key_world) = Inl (KeyError (PStr ''AZURE_OPENAI_KEY''))"
  by (simp add: eval_defs no_openai_key_world_def invoice_world_def invoice_environ_def invoice_pages_def)

lemma no_key_trace:
  "map (activity_name \<circ> fst) (fst (snd (run_instance ''invoice.pdf'' no_openai_key_world)))
     = [''analyze_pdf'', ''summarize_text'', ''summarize_text'', ''summarize_text'']"
  by (simp add: eval_defs no_openai_key_world_def invoice_world_def invoice_environ_def invoice_pages_def)


section \<open>The ingress trigger\<close>

text \<open>
  C9. For every storage event, whatever its path and size, the trigger starts exactly one
  orchestration named \<open>orchestrator\<close> and changes nothing else; the instance's input is
  the leaf of the path: it contains no \<open>/\<close>, and the path is either the leaf itself or
  some prefix, a \<open>/\<close> and the leaf. The trigger never fails on the path and never looks at
  the size or the kind of the file.
\<close>

theorem blob_trigger_starts_one_instance_with_leaf:
  "blob_trigger myblob w =
     (Inr (), w\<lparr>started := started w @ [(''orchestrator'', PStr (after_last (CHR ''/'') (name myblob)))]\<rparr>)
   \<and> CHR ''/'' \<notin> set (after_last (CHR ''/'') (name myblob))
   \<and> (\<exists>pre. name myblob \<in> {after_last (CHR ''/'') (name myblob),
                             pre @ ''/'' @ after_last (CHR ''/'') (name myblob)})"
proof -
  obtain y ys where "split (name myblob) (CHR ''/'') = y # ys"
    using split_nonempty [of "name myblob" "CHR ''/''"] by (cases "split (name myblob) (CHR ''/'')") auto
  then have "last_item (split (name myblob) (CHR ''/'')) = Inr (after_last (CHR ''/'') (name myblob))"
    using last_split [of "name myblob" "CHR ''/''"] by (simp add: last_item_def)
  then have "blob_trigger myblob w =
     (Inr (), w\<lparr>started := started w @ [(''orchestrator'', PStr (after_last (CHR ''/'') (name myblob)))]\<rparr>)"
    by (simp add: blob_trigger_def)
  moreover have "\<exists>pre. name myblob \<in> {after_last (CHR ''/'') (name myblob),
                             pre @ ''/'' @ after_last (CHR ''/'') (name myblob)}"
    using after_last_decomp [of "name myblob" "CHR ''/''"] by auto
  ultimately show ?thesis
    using after_last_free [of "CHR ''/''" "name myblob"] by blast
qed

section \<open>Extraction\<close>



section \<open>Persistence\<close>

text \<open>
  C1. A successful run of \<open>write_summary\<close> on a document name \<open>f\<close> and a summary string
  \<open>S\<close> adds exactly one blob to the output container and changes nothing else: the blob did
  not exist before, its content is \<open>S\<close>, and its name, which is also the value returned,
  is \<open>f\<close>, a dash, the UTC clock reading printed as fourteen decimal digits (four
  for the year, then two each for month, day, hour, minute and second, so the resolution
  is one second) and \<open>.txt\<close>.
\<close>

theorem write_summary_creates_one_timestamped_blob:
  assumes "map_of input ''blob'' = Some (PStr f)"
    and "map_of input ''summary'' = Some (PStr S)"
    and "write_summary (PDict input) w = (Inr out, w')"
    and "valid_datetime (utcnow w)"
    and "1000 \<le> year (utcnow w)"
  shows "\<exists>blobs ts.
           ts = strftime (utcnow w) \<and> length ts = 14 \<and> set ts \<subseteq> set ''0123456789''
           \<and> number_of (take 4 ts) = year (utcnow w)
           \<and> number_of (take 2 (drop 4 ts)) = month (utcnow w)
           \<and> number_of (take 2 (drop 6 ts)) = day (utcnow w)
           \<and> number_of (take 2 (drop 8 ts)) = hour (utcnow w)
           \<and> number_of (take 2 (drop 10 ts)) = minute (utcnow w)
           \<and> number_of (take 2 (drop 12 ts)) = second (utcnow w)
           \<and> out = PStr (f @ ''-'' @ ts @ ''.txt'')
           \<and> containers w ''output'' = Some blobs
           \<and> blobs (f @ ''-'' @ ts @ ''.txt'') = None
           \<and> containers w' ''output'' = Some (blobs(f @ ''-'' @ ts @ ''.txt'' \<mapsto> S))
           \<and> w' = w\<lparr>containers := (containers w)(''output'' \<mapsto> blobs(f @ ''-'' @ ts @ ''.txt'' \<mapsto> S))\<rparr>"
proof -
  obtain blobs where b: "containers w ''output'' = Some blobs"
      "blobs (f @ ''-'' @ strftime (utcnow w) @ ''.txt'') = None"
      "out = PStr (f @ ''-'' @ strftime (utcnow w) @ ''.txt'')"
      "w' = w\<lparr>containers := (containers w)(''output'' \<mapsto>
                       blobs(f @ ''-'' @ strftime (utcnow w) @ ''.txt'' \<mapsto> S))\<rparr>"
    using write_summary_success [OF assms(1-3)] by blast
  have "containers w' ''output'' = Some (blobs(f @ ''-'' @ strftime (utcnow w) @ ''.txt'' \<mapsto> S))"
    by (simp add: b(4))
  then show ?thesis
    using b length_strftime [OF assms(4,5)] strftime_digits [of "utcnow w"]
      strftime_fields [OF assms(4,5)]
    by blast
qed

theorem write_summary_creates_one_timestamped_blob_witness:
  "\<exists>w'. write_summary (PDict [(''blob'', PStr ''invoice.pdf''), (''summary'', PStr ''S'')]) invoice_world
          = (Inr (PStr ''invoice.pdf-20250101120000.txt''), w')
        \<and> containers w' ''output'' = Some [''invoice.pdf-20250101120000.txt'' \<mapsto> ''S'']
        \<and> length (strftime (utcnow invoice_world)) = 14"
proof -
  let ?d = "[(''blob'', PStr ''invoice.pdf''), (''summary'', PStr ''S'')]"
  let ?w' = "invoice_world\<lparr>containers := (containers invoice_world)(''output'' \<mapsto>
               [''invoice.pdf-20250101120000.txt'' \<mapsto> ''S''])\<rparr>"
  have t: "strftime (utcnow invoice_world) = ''20250101120000''"
    by (simp add: strftime_def utcnow_def invoice_world_def zfill_def digit_def decimal.simps)
  have h1: "map_of ?d ''blob'' = Some (PStr ''invoice.pdf'')" by simp
  have h2: "map_of ?d ''summary'' = Some (PStr ''S'')" by simp
  have h3: "write_summary (PDict ?d) invoice_world = (Inr (PStr ''invoice.pdf-20250101120000.txt''), ?w')"
    by (simp add: write_summary_def upload_blob_def format_value_def t Let_def)
      (simp add: invoice_world_def)
  have h4: "valid_datetime (utcnow invoice_world)"
    by (simp add: valid_datetime_def utcnow_def invoice_world_def)
  have h5: "1000 \<le> year (utcnow invoice_world)"
    by (simp add: utcnow_def invoice_world_def)
  from write_summary_creates_one_timestamped_blob [OF h1 h2 h3 h4 h5]
  have "length (strftime (utcnow invoice_world)) = 14" by blast
  moreover have "containers ?w' ''output'' = Some [''invoice.pdf-20250101120000.txt'' \<mapsto> ''S'']"
    by simp
  ultimately show ?thesis using h3 by blast
qed

section \<open>Summarization\<close>






text \<open>
  C10. On a success status with a JSON body: an object without \<open>choices\<close> raises
  \<open>KeyError\<close>, an empty \<open>choices\<close> list raises \<open>IndexError\<close>, a first choice without
  \<open>message\<close> or a message without \<open>content\<close> raises \<open>KeyError\<close>, all of them lookup
  errors. Whenever the body has no value at \<^verbatim>\<open>choices[0].message.content\<close> the activity
  raises, and whenever it returns a value, that value is the one at that place.
\<close>

theorem summarize_text_lookup_errors:
  assumes "environ w ''AZURE_OPENAI_ENDPOINT'' = Some ep"
    and "environ w ''AZURE_OPENAI_DEPLOYMENT_NAME'' = Some dep"
    and "environ w ''AZURE_OPENAI_KEY'' = Some key"
    and "completion_service w (now_ms w) (chat_request ep dep key text) = Inr resp"
    and "200 \<le> status_code resp" and "status_code resp < 300"
    and "body_json resp = Some j"
  shows "(j = PDict d \<and> map_of d ''choices'' = None
            \<longrightarrow> fst (summarize_text text w) = Inl (KeyError (PStr ''choices''))
                \<and> is_lookup_error (KeyError (PStr ''choices'')))
       \<and> (j = PDict d \<and> map_of d ''choices'' = Some (PList [])
            \<longrightarrow> fst (summarize_text text w) = Inl IndexError \<and> is_lookup_error IndexError)
       \<and> (j = PDict d \<and> map_of d ''choices'' = Some (PList (PDict c # rest)) \<and> map_of c ''message'' = None
            \<longrightarrow> fst (summarize_text text w) = Inl (KeyError (PStr ''message''))
                \<and> is_lookup_error (KeyError (PStr ''message'')))
       \<and> (j = PDict d \<and> map_of d ''choices'' = Some (PList (PDict c # rest))
            \<and> map_of c ''message'' = Some (PDict m) \<and> map_of m ''content'' = None
            \<longrightarrow> fst (summarize_text text w) = Inl (KeyError (PStr ''content''))
                \<and> is_lookup_error (KeyError (PStr ''content'')))
       \<and> (first_choice_content j = None \<longrightarrow> (\<exists>e. fst (summarize_text text w) = Inl e))
       \<and> (fst (summarize_text text w) = Inr v \<longrightarrow> first_choice_content j = Some v)"
proof -
  let ?path = "and_then (getitem j ''choices'') (\<lambda>choices.
               and_then (getindex choices 0) (\<lambda>first.
               and_then (getitem first ''message'') (\<lambda>message.
               getitem message ''content'')))"
  have r: "fst (summarize_text text w) = ?path"
    using assms(5-7) by (simp add: summarize_text_answer [OF assms(1-4)])
  have none: "first_choice_content j = None \<longrightarrow> (\<exists>e. ?path = Inl e)"
    using content_path [of j] by (cases ?path) auto
  show ?thesis
    unfolding r using none content_path [of j v]
    by (auto simp add: and_then_def)
qed

theorem summarize_text_lookup_errors_witness:
  "fst (summarize_text (PStr ''Line 1'') no_choices_world) = Inl (KeyError (PStr ''choices''))"
proof -
  have e: "environ no_choices_world ''AZURE_OPENAI_ENDPOINT'' = Some ''https://llm.example//''"
    and d: "environ no_choices_world ''AZURE_OPENAI_DEPLOYMENT_NAME'' = Some ''gpt''"
    and k: "environ no_choices_world ''AZURE_OPENAI_KEY'' = Some ''k2''"
    by (simp_all add: no_choices_world_def invoice_world_def invoice_environ_def)
  have r: "completion_service no_choices_world (now_ms no_choices_world)
             (chat_request ''https://llm.example//'' ''gpt'' ''k2'' (PStr ''Line 1''))
           = Inr \<lparr>status_code = 200, body_json = Some (PDict [])\<rparr>"
    by (simp add: no_choices_world_def)
  show ?thesis
    using summarize_text_lookup_errors [OF e d k r, of "PDict []" "[]"] by simp
qed

section \<open>The orchestrator\<close>

text \<open>
  C4. For every document name, whatever the activities do and however time passes: the
  steps a run attempts are always an initial part of the fixed order \<open>analyze_pdf\<close>,
  \<open>summarize_text\<close>, \<open>write_summary\<close>, and in a
  run that returns a value the steps attempted are, in this order and with nothing else,
  \<open>analyze_pdf\<close> on the document name, \<open>summarize_text\<close> on what extraction returned, and
  \<open>write_summary\<close> on the dict of the document name and what summarization returned
  (failed attempts of a step precede its success and belong to the same step); exactly
  three attempts succeed, one per step, and the value returned is the one that
  \<open>write_summary\<close> returned.
\<close>

theorem orchestrator_runs_three_activities_in_order:
  assumes "run act wait (orchestrator blob_name) w = (r, tr, w')"
  shows "remdups_adj (map (activity_name \<circ> fst) tr)
           \<in> {[''analyze_pdf''], [''analyze_pdf'', ''summarize_text''],
               [''analyze_pdf'', ''summarize_text'', ''write_summary'']}
       \<and> (r = Inr outblob \<longrightarrow>
            (\<exists>extracted summary.
               filter (\<lambda>x. \<not> isl (snd x)) tr =
                 [(Analyze_pdf blob_name, Inr extracted),
                  (Summarize_text extracted, Inr summary),
                  (Write_summary (PDict [(''blob'', PStr blob_name), (''summary'', summary)]), Inr outblob)]
               \<and> remdups_adj (map fst tr) =
                 [Analyze_pdf blob_name, Summarize_text extracted,
                  Write_summary (PDict [(''blob'', PStr blob_name), (''summary'', summary)])]))"
proof -
  have "r = Inr outblob \<longrightarrow>
          (\<exists>extracted summary.
             filter (\<lambda>x. \<not> isl (snd x)) tr =
               [(Analyze_pdf blob_name, Inr extracted),
                (Summarize_text extracted, Inr summary),
                (Write_summary (PDict [(''blob'', PStr blob_name), (''summary'', summary)]), Inr outblob)]
             \<and> remdups_adj (map fst tr) =
               [Analyze_pdf blob_name, Summarize_text extracted,
                Write_summary (PDict [(''blob'', PStr blob_name), (''summary'', summary)])])"
    using assms successful_run_shape [of act wait blob_name w outblob tr w'] by blast
  then show ?thesis
    using run_step_names [OF assms] by blast
qed

theorem orchestrator_runs_three_activities_in_order_witness:
  "fst (run activity sleep (orchestrator ''invoice.pdf'') invoice_world)
     = Inr (PStr ''invoice.pdf-20250101120000.txt'')
   \<and> length (filter (\<lambda>x. \<not> isl (snd x))
               (fst (snd (run activity sleep (orchestrator ''invoice.pdf'') invoice_world)))) = 3"
proof -
  let ?X = "run activity sleep (orchestrator ''invoice.pdf'') invoice_world"
  have r: "fst ?X = Inr (PStr ''invoice.pdf-20250101120000.txt'')"
    using invoice_result by (simp add: run_instance_def)
  then have h: "?X = (Inr (PStr ''invoice.pdf-20250101120000.txt''), fst (snd ?X), snd (snd ?X))"
    by (metis prod.collapse)
  from orchestrator_runs_three_activities_in_order
         [OF h, of "PStr ''invoice.pdf-20250101120000.txt''"]
  have "length (filter (\<lambda>x. \<not> isl (snd x)) (fst (snd ?X))) = 3"
    by fastforce
  with r show ?thesis by simp
qed



section \<open>Repeating an activity\<close>

text \<open>
  C6, as the code has it. Extraction and summarization are repeatable: invoked again
  with the same input at a later instant at which the services answer as they did, each
  returns what it returned before, and neither changes blob storage. Persistence is not:
  after a successful \<open>write_summary\<close>, the same input at an instant with the same clock
  reading fails, because the blob of that name now exists.
\<close>

theorem extraction_and_summarization_are_repeatable:
  "(analyze_pdf blobName w = (r, w1) \<and> storage_fault w t = storage_fault w (now_ms w)
      \<and> layout_service w t = layout_service w (now_ms w)
      \<longrightarrow> analyze_pdf blobName (w1\<lparr>now_ms := t\<rparr>) = (r, w1\<lparr>now_ms := t\<rparr>))
   \<and> (summarize_text text w = (r', w2) \<and> completion_service w t = completion_service w (now_ms w)
      \<longrightarrow> fst (summarize_text text (w2\<lparr>now_ms := t\<rparr>)) = r' \<and> containers w2 = containers w)
   \<and> (write_summary input w = (Inr out, w3) \<and> wall_clock w t = wall_clock w (now_ms w)
      \<and> storage_fault w t = None
      \<longrightarrow> fst (write_summary input (w3\<lparr>now_ms := t\<rparr>)) = Inl ResourceExistsError)"
proof -
  have a: "analyze_pdf blobName (w1\<lparr>now_ms := t\<rparr>) = (r, w1\<lparr>now_ms := t\<rparr>)"
    if "analyze_pdf blobName w = (r, w1)" "storage_fault w t = storage_fault w (now_ms w)"
      "layout_service w t = layout_service w (now_ms w)"
  proof -
    from that(1) have w1: "w1 = w" by (simp add: analyze_pdf_def)
    have d: "download_blob (w\<lparr>now_ms := t\<rparr>) ''input'' blobName = download_blob w ''input'' blobName"
      using that(2) by (simp add: download_blob_def split: option.splits)
    have "fst (analyze_pdf blobName (w\<lparr>now_ms := t\<rparr>)) = fst (analyze_pdf blobName w)"
      using that(3) by (simp add: analyze_pdf_def d getenv_def)
    then show ?thesis
      using that(1) w1 by (simp add: analyze_pdf_def)
  qed
  have s: "fst (summarize_text text (w2\<lparr>now_ms := t\<rparr>)) = r' \<and> containers w2 = containers w"
    if "summarize_text text w = (r', w2)" "completion_service w t = completion_service w (now_ms w)"
    using that by (auto simp add: summarize_text_def getenv_def Let_def split: option.splits)
  have p: "fst (write_summary input (w3\<lparr>now_ms := t\<rparr>)) = Inl ResourceExistsError"
    if "write_summary input w = (Inr out, w3)" "wall_clock w t = wall_clock w (now_ms w)"
      "storage_fault w t = None"
  proof -
    let ?n = "format_value w (projr (getitem input ''blob'')) @ ''-'' @ strftime (utcnow w) @ ''.txt''"
    from that(1) obtain bn s blobs where ok:
      "getitem input ''blob'' = Inr bn" "getitem input ''summary'' = Inr (PStr s)"
      "containers w ''output'' = Some blobs"
      "w3 = w\<lparr>containers := (containers w)(''output'' \<mapsto> blobs(?n \<mapsto> s))\<rparr>"
      by (auto simp add: write_summary_def upload_blob_def Let_def
          split: sum.splits pyval.splits option.splits)
    have f: "format_value (w3\<lparr>now_ms := t\<rparr>) bn = format_value w bn"
      by (cases bn) (simp_all add: ok(4) format_value_def)
    have c: "utcnow (w3\<lparr>now_ms := t\<rparr>) = utcnow w"
      using that(2) by (simp add: ok(4) utcnow_def)
    show ?thesis
      using that(3) by (simp add: write_summary_def ok(1,2) f c upload_blob_def Let_def) (simp add: ok)
  qed
  from a s p show ?thesis by blast
qed

theorem extraction_and_summarization_are_repeatable_witness:
  "analyze_pdf ''invoice.pdf'' (invoice_world\<lparr>now_ms := 5000\<rparr>)
     = (Inr (PStr (''Line 1'' @ [CHR 0x0A] @ ''Line 2'')), invoice_world\<lparr>now_ms := 5000\<rparr>)"
proof -
  have sf: "storage_fault invoice_world 5000 = storage_fault invoice_world (now_ms invoice_world)"
    and ls: "layout_service invoice_world 5000 = layout_service invoice_world (now_ms invoice_world)"
    by (simp_all add: invoice_world_def)
  show ?thesis
    using extraction_and_summarization_are_repeatable
      [of "''invoice.pdf''" invoice_world "Inr (PStr (''Line 1'' @ [CHR 0x0A] @ ''Line 2''))"
          invoice_world 5000]
      invoice_analyze sf ls
    by blast
qed

text \<open>
  C6 as stated covers every retried activity. \<open>write_summary\<close> invoked twice with the
  same input returns two different names when five seconds pass in between (and leaves
  two blobs), and fails the second time when no time passes.
\<close>

theorem write_summary_twice_counterexample:
  "fst (write_summary invoice_input ticking_world) = Inr (PStr ''invoice.pdf-20250101120000.txt'')
   \<and> fst (write_summary invoice_input (sleep 5000 (snd (write_summary invoice_input ticking_world))))
       = Inr (PStr ''invoice.pdf-20250101120005.txt'')
   \<and> fst (write_summary invoice_input (snd (write_summary invoice_input ticking_world)))
       = Inl ResourceExistsError"
  by (simp add: eval_defs getitem.simps invoice_input_def ticking_world_def invoice_world_def)

section \<open>Missing settings\<close>

text \<open>
  C7, as the code has it. Only the storage connection string is read when the module is
  loaded: when it is missing, loading fails with \<open>KeyError\<close> and nothing is dispatched.
  The completion settings are read by \<open>summarize_text\<close>: when one is missing, every
  invocation raises \<open>KeyError\<close> for a missing setting before any request is sent. The
  document-analysis settings are read by \<open>analyze_pdf\<close> after the download: when one is
  missing, every invocation fails, with \<open>KeyError\<close> for a missing setting once the blob
  has been downloaded. \<open>KeyError\<close> is a lookup error.
\<close>

theorem missing_setting_fails_where_it_is_read:
  "(environ w ''BLOB_STORAGE_ENDPOINT'' = None
      \<longrightarrow> dispatch f w = (Inl (KeyError (PStr ''BLOB_STORAGE_ENDPOINT'')), w)
          \<and> is_lookup_error (KeyError (PStr ''BLOB_STORAGE_ENDPOINT'')))
   \<and> (k \<in> {''AZURE_OPENAI_ENDPOINT'', ''AZURE_OPENAI_DEPLOYMENT_NAME'', ''AZURE_OPENAI_KEY''}
        \<and> environ w k = None
      \<longrightarrow> (\<exists>k'. environ w k' = None \<and> is_lookup_error (KeyError (PStr k'))
                \<and> summarize_text text w = (Inl (KeyError (PStr k')), w)))
   \<and> (k \<in> {''COGNITIVE_SERVICES_ENDPOINT'', ''COGNITIVE_SERVICES_KEY''} \<and> environ w k = None
      \<longrightarrow> (\<exists>e. analyze_pdf blobName w = (Inl e, w))
          \<and> (download_blob w ''input'' blobName = Inr pdf_bytes
              \<longrightarrow> (\<exists>k'. environ w k' = None \<and> is_lookup_error (KeyError (PStr k'))
                      \<and> analyze_pdf blobName w = (Inl (KeyError (PStr k')), w))))"
proof -
  have a: "dispatch f w = (Inl (KeyError (PStr ''BLOB_STORAGE_ENDPOINT'')), w)"
    if "environ w ''BLOB_STORAGE_ENDPOINT'' = None"
    using that by (simp add: dispatch_def blob_svc_def getenv_def and_then_def)
  have s: "\<exists>k'. environ w k' = None \<and> summarize_text text w = (Inl (KeyError (PStr k')), w)"
    if "k \<in> {''AZURE_OPENAI_ENDPOINT'', ''AZURE_OPENAI_DEPLOYMENT_NAME'', ''AZURE_OPENAI_KEY''}"
      "environ w k = None"
  proof (cases "environ w ''AZURE_OPENAI_ENDPOINT''")
    case None
    then have "summarize_text text w = (Inl (KeyError (PStr ''AZURE_OPENAI_ENDPOINT'')), w)"
      by (simp add: summarize_text_def getenv_def)
    with None show ?thesis by blast
  next
    case ep: (Some ep)
    show ?thesis
    proof (cases "environ w ''AZURE_OPENAI_DEPLOYMENT_NAME''")
      case None
      then have "summarize_text text w = (Inl (KeyError (PStr ''AZURE_OPENAI_DEPLOYMENT_NAME'')), w)"
        using ep by (simp add: summarize_text_def getenv_def)
      with None show ?thesis by blast
    next
      case dep: (Some dep)
      from that ep dep have none: "environ w ''AZURE_OPENAI_KEY'' = None" by auto
      then have "summarize_text text w = (Inl (KeyError (PStr ''AZURE_OPENAI_KEY'')), w)"
        using ep dep by (simp add: summarize_text_def getenv_def)
      with none show ?thesis by blast
    qed
  qed
  have x: "\<exists>e. analyze_pdf blobName w = (Inl e, w)"
    if "k \<in> {''COGNITIVE_SERVICES_ENDPOINT'', ''COGNITIVE_SERVICES_KEY''}" "environ w k = None"
    using that by (auto simp add: analyze_pdf_def getenv_def and_then_def split: sum.splits option.splits)
  have y: "\<exists>k'. environ w k' = None \<and> analyze_pdf blobName w = (Inl (KeyError (PStr k')), w)"
    if "k \<in> {''COGNITIVE_SERVICES_ENDPOINT'', ''COGNITIVE_SERVICES_KEY''}" "environ w k = None"
      "download_blob w ''input'' blobName = Inr pdf_bytes"
  proof (cases "environ w ''COGNITIVE_SERVICES_ENDPOINT''")
    case None
    then have "analyze_pdf blobName w = (Inl (KeyError (PStr ''COGNITIVE_SERVICES_ENDPOINT'')), w)"
      using that(3) by (simp add: analyze_pdf_def getenv_def and_then_def)
    with None show ?thesis by blast
  next
    case (Some ep)
    with that have none: "environ w ''COGNITIVE_SERVICES_KEY'' = None" by auto
    then have "analyze_pdf blobName w = (Inl (KeyError (PStr ''COGNITIVE_SERVICES_KEY'')), w)"
      using that(3) Some by (simp add: analyze_pdf_def getenv_def and_then_def)
    with none show ?thesis by blast
  qed
  from a s x y show ?thesis by simp
qed

theorem missing_setting_fails_where_it_is_read_witness:
  "summarize_text (PStr ''Line 1'') no_openai_key_world
     = (Inl (KeyError (PStr ''AZURE_OPENAI_KEY'')), no_openai_key_world)"
proof -
  have n: "environ no_openai_key_world ''AZURE_OPENAI_KEY'' = None"
    by (simp add: no_openai_key_world_def)
  have e: "environ no_openai_key_world ''AZURE_OPENAI_ENDPOINT'' \<noteq> None"
    and d: "environ no_openai_key_world ''AZURE_OPENAI_DEPLOYMENT_NAME'' \<noteq> None"
    by (simp_all add: no_openai_key_world_def invoice_environ_def)
  from missing_setting_fails_where_it_is_read
    [of no_openai_key_world _ "''AZURE_OPENAI_KEY''" "PStr ''Line 1''"] n
  obtain k' where k': "environ no_openai_key_world k' = None"
    "summarize_text (PStr ''Line 1'') no_openai_key_world = (Inl (KeyError (PStr k')), no_openai_key_world)"
    by auto
  have "fst (summarize_text (PStr ''Line 1'') no_openai_key_world) = Inl (KeyError (PStr ''AZURE_OPENAI_KEY''))"
    using e d n by (auto simp add: summarize_text_def getenv_def)
  with k' show ?thesis by simp
qed

text \<open>
  C7 as stated has every missing setting fail the cold start. With only the completion
  key missing the module loads, the extraction activity of an instance is dispatched and
  succeeds, and the instance fails later, at the three attempts of summarization.
\<close>

theorem missing_completion_key_counterexample:
  "environ no_openai_key_world ''AZURE_OPENAI_KEY'' = None
   \<and> blob_svc no_openai_key_world = Inr ()
   \<and> fst (dispatch (analyze_pdf ''invoice.pdf'') no_openai_key_world)
       = Inr (PStr (''Line 1'' @ [CHR 0x0A] @ ''Line 2''))
   \<and> fst (run_instance ''invoice.pdf'' no_openai_key_world) = Inl (KeyError (PStr ''AZURE_OPENAI_KEY''))
   \<and> map (activity_name \<circ> fst) (fst (snd (run_instance ''invoice.pdf'' no_openai_key_world)))
       = [''analyze_pdf'', ''summarize_text'', ''summarize_text'', ''summarize_text'']"
proof -
  have n: "environ no_openai_key_world ''AZURE_OPENAI_KEY'' = None"
    by (simp add: no_openai_key_world_def)
  have b: "blob_svc no_openai_key_world = Inr ()"
    by (simp add: blob_svc_def getenv_def and_then_def no_openai_key_world_def invoice_world_def
        invoice_environ_def)
  have a: "fst (dispatch (analyze_pdf ''invoice.pdf'') no_openai_key_world)
             = Inr (PStr (''Line 1'' @ [CHR 0x0A] @ ''Line 2''))"
    by (simp add: dispatch_def b)
      (simp add: eval_defs no_openai_key_world_def invoice_world_def invoice_environ_def invoice_pages_def)
  from n b a no_key_result no_key_trace show ?thesis by simp
qed

end
